theory Spec2Isabelle
  imports Complex_Main
begin

section \<open>The session controller of GlacialBreathApp (src/App.tsx)\<close>

text \<open>
  The component \<open>App\<close> keeps its session in React state variables and in three refs, and
  drives it with \<open>window.setInterval\<close> and \<open>window.setTimeout\<close>. The model is a state
  record holding the state variables, the refs, and the part of the browser the code talks to:
  the pool of scheduled timers, the last timer handle issued, and the log of \<open>playSound\<close> calls.

  Conventions of the model:
  \<^item> every handler and every timer callback runs to completion before the next one (the
    browser's event loop); a functional state update \<open>setX(prev => ...)\<close> is applied to the
    current value exactly once, in the order the code issues it;
  \<^item> a JavaScript number holding seconds is a \<open>real\<close>: the arithmetic of the model is exact
    where the browser computes in double precision; counters, rounds and \<open>Date.now()\<close>
    milliseconds are integers;
  \<^item> the settings are fixed while a session runs and are a parameter of every function that
    closes over them;
  \<^item> the value of \<open>Date.now()\<close> is an argument of the callback that reads it.
\<close>

subsection \<open>Data (src/types.ts)\<close>

datatype SessionPhase = IDLE | PREPARE | BREATHING | RETENTION | RECOVERY | COMPLETED

record SessionStats =
  round_s :: int
  retentionTime :: real

record BreathingSettings =
  breathsPerRound :: int
  tempoMs :: int
  totalRounds :: int

definition DEFAULT_SETTINGS :: BreathingSettings where
  "DEFAULT_SETTINGS = \<lparr>breathsPerRound = 30, tempoMs = 3500, totalRounds = 3\<rparr>"

subsection \<open>The browser: timers and cues\<close>

text \<open>The argument of \<open>playSound\<close>.\<close>

datatype sound = Inhale | Exhale | Bell

text \<open>
  The functions the code hands to \<open>setInterval\<close> and \<open>setTimeout\<close>: the interval callback of
  \<open>startBreathingCycle\<close>, \<open>runBreathingStep\<close>, the callbacks of \<open>startRetention\<close> and of
  \<open>endRetention\<close>, and the one-shot callback of \<open>finishRound\<close>.
\<close>

datatype callback = CycleCallback | BreathingStep | RetentionTick | RecoveryTick | NextRound

record timer =
  repeats :: bool
  delayMs :: real
  action :: callback

record App =
  phase :: SessionPhase
  round_n :: int
  breathCount :: int
  elapsedTime :: real
  isInhale :: bool
  sessionStats :: "SessionStats list"
  timerRef :: "nat option"
  lastTimeRef :: int
  activeCycleRef :: nat
  timers :: "(nat \<times> timer) list"
  lastHandle :: nat
  cues :: "sound list"

text \<open>The state of a freshly mounted component: the \<open>useState\<close> and \<open>useRef\<close> initial values.\<close>

definition initApp :: App where
  "initApp = \<lparr>phase = IDLE, round_n = 1, breathCount = 0, elapsedTime = 0, isInhale = False,
     sessionStats = [], timerRef = None, lastTimeRef = 0, activeCycleRef = 0,
     timers = [], lastHandle = 0, cues = []\<rparr>"

text \<open>
  \<open>setInterval\<close> and \<open>setTimeout\<close> draw their handles from one counter, starting at 1, and
  \<open>clearInterval\<close> removes the timer with the given handle, of either kind; clearing a handle
  that is not scheduled does nothing.
\<close>

definition setInterval :: "callback \<Rightarrow> real \<Rightarrow> App \<Rightarrow> nat \<times> App" where
  "setInterval cb d s =
     (let h = Suc (lastHandle s) in
      (h, s\<lparr>timers := (h, \<lparr>repeats = True, delayMs = d, action = cb\<rparr>) # timers s,
            lastHandle := h\<rparr>))"

definition setTimeout :: "callback \<Rightarrow> real \<Rightarrow> App \<Rightarrow> nat \<times> App" where
  "setTimeout cb d s =
     (let h = Suc (lastHandle s) in
      (h, s\<lparr>timers := (h, \<lparr>repeats = False, delayMs = d, action = cb\<rparr>) # timers s,
            lastHandle := h\<rparr>))"

definition clearInterval :: "nat \<Rightarrow> App \<Rightarrow> App" where
  "clearInterval h s = s\<lparr>timers := filter (\<lambda>p. fst p \<noteq> h) (timers s)\<rparr>"

text \<open>\<open>if (timerRef.current) clearInterval(timerRef.current)\<close>: null and 0 are falsy.\<close>

definition clearTimerRef :: "App \<Rightarrow> App" where
  "clearTimerRef s =
     (case timerRef s of
        None \<Rightarrow> s
      | Some h \<Rightarrow> if h \<noteq> 0 then clearInterval h s else s)"

text \<open>\<open>if (activeCycleRef.current) clearInterval(activeCycleRef.current)\<close>.\<close>

definition clearActiveCycleRef :: "App \<Rightarrow> App" where
  "clearActiveCycleRef s =
     (if activeCycleRef s \<noteq> 0 then clearInterval (activeCycleRef s) s else s)"

text \<open>
  \<open>playSound\<close> calls the audio service and the vibration interface inside a \<open>try\<close>; neither
  touches the session, so the model records the call.
\<close>

definition playSound :: "sound \<Rightarrow> App \<Rightarrow> App" where
  "playSound t s = s\<lparr>cues := cues s @ [t]\<rparr>"

text \<open>The scheduled timers that repeat, and the pending one-shots.\<close>

definition activeIntervals :: "App \<Rightarrow> (nat \<times> timer) list" where
  "activeIntervals s = filter (\<lambda>p. repeats (snd p)) (timers s)"

definition pendingTimeouts :: "App \<Rightarrow> (nat \<times> timer) list" where
  "pendingTimeouts s = filter (\<lambda>p. \<not> repeats (snd p)) (timers s)"

subsection \<open>The logic engine\<close>

text \<open>\<open>startRetention\<close> (App.tsx 116-129) and the callback it schedules.\<close>

definition startRetention :: "int \<Rightarrow> App \<Rightarrow> App" where
  "startRetention now s =
     (let s1 = clearTimerRef s;
          s2 = s1\<lparr>phase := RETENTION, elapsedTime := 0, lastTimeRef := now\<rparr>;
          s3 = playSound Bell s2;
          (h, s4) = setInterval RetentionTick 100 s3
      in s4\<lparr>timerRef := Some h\<rparr>)"

definition retentionTick :: "int \<Rightarrow> App \<Rightarrow> App" where
  "retentionTick now s =
     (let delta = real_of_int (now - lastTimeRef s) / 1000
      in s\<lparr>lastTimeRef := now, elapsedTime := elapsedTime s + delta\<rparr>)"

text \<open>The interval callback of \<open>startBreathingCycle\<close> (App.tsx 72-91).\<close>

definition cycleCallback :: "BreathingSettings \<Rightarrow> int \<Rightarrow> App \<Rightarrow> App" where
  "cycleCallback st now s =
     (let nextIsInhale = \<not> isInhale s;
          s1 = (if nextIsInhale then
                  (let nextCount = breathCount s + 1 in
                   if nextCount > breathsPerRound st then startRetention now s
                   else (playSound Inhale s)\<lparr>breathCount := nextCount\<rparr>)
                else playSound Exhale s)
      in s1\<lparr>isInhale := nextIsInhale\<rparr>)"

definition startBreathingCycle :: "BreathingSettings \<Rightarrow> App \<Rightarrow> App" where
  "startBreathingCycle st s =
     (let s1 = clearTimerRef s;
          (h, s2) = setInterval CycleCallback (real_of_int (tempoMs st) / 2) s1
      in s2\<lparr>timerRef := Some h\<rparr>)"

text \<open>
  \<open>startSession\<close> (App.tsx 56-65), which no control is bound to. \<open>initAudio\<close>, awaited first,
  works on the audio context only.
\<close>

definition startSession :: "BreathingSettings \<Rightarrow> App \<Rightarrow> App" where
  "startSession st s =
     startBreathingCycle st
       (playSound Inhale
          (s\<lparr>phase := BREATHING, round_n := 1, breathCount := 1, isInhale := True,
             sessionStats := []\<rparr>))"

text \<open>\<open>runBreathingStep\<close> (App.tsx 134-157).\<close>

definition runBreathingStep :: "BreathingSettings \<Rightarrow> int \<Rightarrow> App \<Rightarrow> App" where
  "runBreathingStep st now s =
     (let nextIsInhale = \<not> isInhale s;
          s1 = (if nextIsInhale then
                  (let nextCount = breathCount s + 1 in
                   if nextCount > breathsPerRound st
                   then startRetention now (clearActiveCycleRef s)
                   else (playSound Inhale s)\<lparr>breathCount := nextCount\<rparr>)
                else playSound Exhale s)
      in s1\<lparr>isInhale := nextIsInhale\<rparr>)"

text \<open>\<open>startBreathingCycleSafe\<close> (App.tsx 159-164).\<close>

definition startBreathingCycleSafe :: "BreathingSettings \<Rightarrow> App \<Rightarrow> App" where
  "startBreathingCycleSafe st s =
     (let s1 = clearActiveCycleRef s;
          (h, s2) = setInterval BreathingStep (real_of_int (tempoMs st) / 2) s1
      in s2\<lparr>activeCycleRef := h, timerRef := Some h\<rparr>)"

text \<open>\<open>startSessionWrapper\<close> (App.tsx 167-176), the handler of the start button.\<close>

definition startSessionWrapper :: "BreathingSettings \<Rightarrow> App \<Rightarrow> App" where
  "startSessionWrapper st s =
     startBreathingCycleSafe st
       (playSound Inhale
          (s\<lparr>phase := BREATHING, round_n := 1, breathCount := 1, isInhale := True,
             sessionStats := []\<rparr>))"

text \<open>\<open>resumeBreathing\<close> (App.tsx 178-184).\<close>

definition resumeBreathing :: "BreathingSettings \<Rightarrow> App \<Rightarrow> App" where
  "resumeBreathing st s =
     startBreathingCycleSafe st
       (playSound Inhale (s\<lparr>phase := BREATHING, breathCount := 1, isInhale := True\<rparr>))"

text \<open>The one-shot callback of \<open>finishRound\<close> (App.tsx 216-219).\<close>

definition nextRound :: "BreathingSettings \<Rightarrow> App \<Rightarrow> App" where
  "nextRound st s = (let s1 = resumeBreathing st s in s1\<lparr>round_n := round_n s1 + 1\<rparr>)"

text \<open>\<open>finishRound\<close> (App.tsx 205-223).\<close>

definition finishRound :: "BreathingSettings \<Rightarrow> App \<Rightarrow> App" where
  "finishRound st s =
     (let s1 = clearTimerRef s in
      if round_n s1 \<ge> totalRounds st then playSound Bell (s1\<lparr>phase := COMPLETED\<rparr>)
      else snd (setTimeout NextRound 1000 s1))"

text \<open>\<open>endRetention\<close> (App.tsx 186-203) and the callback it schedules.\<close>

definition endRetention :: "App \<Rightarrow> App" where
  "endRetention s =
     (let s1 = s\<lparr>sessionStats := sessionStats s @
                   [\<lparr>round_s = round_n s, retentionTime = elapsedTime s\<rparr>]\<rparr>;
          s2 = clearTimerRef s1;
          s3 = playSound Inhale (s2\<lparr>phase := RECOVERY, elapsedTime := 15\<rparr>);
          (h, s4) = setInterval RecoveryTick 100 s3
      in s4\<lparr>timerRef := Some h\<rparr>)"

definition recoveryTick :: "BreathingSettings \<Rightarrow> App \<Rightarrow> App" where
  "recoveryTick st s =
     (if elapsedTime s \<le> 1 / 10 then (finishRound st s)\<lparr>elapsedTime := 0\<rparr>
      else s\<lparr>elapsedTime := elapsedTime s - 1 / 10\<rparr>)"

text \<open>\<open>stopSession\<close> (App.tsx 225-231).\<close>

definition stopSession :: "App \<Rightarrow> App" where
  "stopSession s =
     (clearActiveCycleRef (clearTimerRef s))\<lparr>phase := IDLE, breathCount := 0, elapsedTime := 0\<rparr>"

subsection \<open>Events: the view's controls and the timers firing\<close>

datatype command = Start | EndRetentionNow | Stop

text \<open>
  The buttons on the screen, as the commands they are bound to. \<open>renderControls\<close>
  (App.tsx 323-359) returns the start button when idle, the end-retention button during
  retention, the stop button in every other phase but \<open>COMPLETED\<close>, and nothing in
  \<open>COMPLETED\<close>. \<open>renderStats\<close> (App.tsx 361-385), which the main render shows in phase
  \<open>COMPLETED\<close>, has the Done button, bound to \<open>stopSession\<close>.
\<close>

fun renderControls :: "SessionPhase \<Rightarrow> command list" where
  "renderControls IDLE = [Start]"
| "renderControls RETENTION = [EndRetentionNow]"
| "renderControls COMPLETED = []"
| "renderControls p = [Stop]"

definition renderStats :: "command list" where
  "renderStats = [Stop]"

definition buttons :: "SessionPhase \<Rightarrow> command list" where
  "buttons p = (if p = COMPLETED then renderStats else []) @ renderControls p"

fun handler :: "BreathingSettings \<Rightarrow> command \<Rightarrow> App \<Rightarrow> App" where
  "handler st Start s = startSessionWrapper st s"
| "handler st EndRetentionNow s = endRetention s"
| "handler st Stop s = stopSession s"

text \<open>A command reaches its handler only through a button that is on the screen.\<close>

definition click :: "BreathingSettings \<Rightarrow> command \<Rightarrow> App \<Rightarrow> App" where
  "click st c s = (if c \<in> set (buttons (phase s)) then handler st c s else s)"

fun runCallback :: "BreathingSettings \<Rightarrow> callback \<Rightarrow> int \<Rightarrow> App \<Rightarrow> App" where
  "runCallback st CycleCallback now s = cycleCallback st now s"
| "runCallback st BreathingStep now s = runBreathingStep st now s"
| "runCallback st RetentionTick now s = retentionTick now s"
| "runCallback st RecoveryTick now s = recoveryTick st s"
| "runCallback st NextRound now s = nextRound st s"

text \<open>
  The timer with handle \<open>h\<close> fires while the clock reads \<open>now\<close>. Only a scheduled timer fires;
  a one-shot leaves the pool when it runs.
\<close>

definition fire :: "BreathingSettings \<Rightarrow> nat \<Rightarrow> int \<Rightarrow> App \<Rightarrow> App" where
  "fire st h now s =
     (case map_of (timers s) h of
        None \<Rightarrow> s
      | Some t \<Rightarrow> runCallback st (action t) now (if repeats t then s else clearInterval h s))"

datatype event = Click command | Fire nat int

fun step :: "BreathingSettings \<Rightarrow> event \<Rightarrow> App \<Rightarrow> App" where
  "step st (Click c) s = click st c s"
| "step st (Fire h now) s = fire st h now s"

fun run :: "BreathingSettings \<Rightarrow> event list \<Rightarrow> App \<Rightarrow> App" where
  "run st [] s = s"
| "run st (e # es) s = run st es (step st e s)"

subsection \<open>Sample inputs, driven sessions and invariants\<close>

text \<open>
  Settings with four breaths per round, and the state they reach when a session is started and
  the breathing timer has ticked eight times.
\<close>

definition fourBreaths :: BreathingSettings where
  "fourBreaths = \<lparr>breathsPerRound = 4, tempoMs = 2000, totalRounds = 1\<rparr>"


text \<open>The bound on the breath counter during breathing.\<close>

definition breathBound :: "BreathingSettings \<Rightarrow> App \<Rightarrow> bool" where
  "breathBound st s =
     (phase s = BREATHING \<longrightarrow> 1 \<le> breathCount s \<and> breathCount s \<le> breathsPerRound st)"

text \<open>
  The timer that \<open>startBreathingCycleSafe\<close> schedules, the one-shot of \<open>finishRound\<close>, and the
  state at the start of a round.
\<close>

definition breathingTimer :: "BreathingSettings \<Rightarrow> timer" where
  "breathingTimer st =
     \<lparr>repeats = True, delayMs = real_of_int (tempoMs st) / 2, action = BreathingStep\<rparr>"

definition nextRoundTimer :: timer where
  "nextRoundTimer = \<lparr>repeats = False, delayMs = 1000, action = NextRound\<rparr>"

definition atBreathing :: "BreathingSettings \<Rightarrow> nat \<Rightarrow> App \<Rightarrow> bool" where
  "atBreathing st h s =
     (phase s = BREATHING \<and> isInhale s \<and> breathCount s = 1
      \<and> timers s = [(h, breathingTimer st)] \<and> timerRef s = Some h
      \<and> activeCycleRef s = h \<and> lastHandle s = h \<and> h \<noteq> 0)"

text \<open>
  One round driven to its end: the breathing ticks (clock \<open>t0\<close>) up to the one that starts
  retention, retention ticks at the clock readings \<open>ts\<close>, the end-retention command, and the 150
  recovery ticks. The four handles a round draws are \<open>h\<close> for the breathing timer, then the
  retention timer, the recovery timer and, when another round follows, the one-shot.
\<close>

definition roundEvents :: "BreathingSettings \<Rightarrow> nat \<Rightarrow> int \<Rightarrow> int list \<Rightarrow> event list" where
  "roundEvents st h t0 ts =
     replicate (2 * nat (breathsPerRound st)) (Fire h t0)
     @ map (Fire (Suc h)) ts
     @ [Click EndRetentionNow]
     @ replicate 150 (Fire (Suc (Suc h)) 0)"


text \<open>
  The timer a phase runs on, and the invariant of the timer pool: nothing is scheduled in
  \<open>IDLE\<close> and \<open>COMPLETED\<close>; in every other phase exactly one timer is, of the kind the phase
  runs on, and \<open>timerRef\<close> holds its handle when it repeats.
\<close>

fun phaseTimer :: "SessionPhase \<Rightarrow> timer \<Rightarrow> bool" where
  "phaseTimer BREATHING t = (repeats t \<and> action t = BreathingStep)"
| "phaseTimer RETENTION t = (repeats t \<and> action t = RetentionTick)"
| "phaseTimer RECOVERY t =
     ((repeats t \<and> action t = RecoveryTick) \<or> (\<not> repeats t \<and> action t = NextRound))"
| "phaseTimer p t = False"

definition timerInv :: "App \<Rightarrow> bool" where
  "timerInv s =
     (if phase s = IDLE \<or> phase s = COMPLETED then timers s = []
      else length (timers s) = 1
         \<and> phaseTimer (phase s) (snd (hd (timers s)))
         \<and> (repeats (snd (hd (timers s))) \<longrightarrow>
              timerRef s = Some (fst (hd (timers s))) \<and> fst (hd (timers s)) \<noteq> 0))"


section \<open>Properties\<close>

lemma run_append: "run st (xs @ ys) s = run st ys (run st xs s)"
  by (induction xs arbitrary: s) simp_all

lemma buttons_simps [simp]:
  "buttons IDLE = [Start]"
  "buttons PREPARE = [Stop]"
  "buttons BREATHING = [Stop]"
  "buttons RETENTION = [EndRetentionNow]"
  "buttons RECOVERY = [Stop]"
  "buttons COMPLETED = [Stop]"
  by (simp_all add: buttons_def renderStats_def)

lemmas timer_ops =
  setInterval_def setTimeout_def clearInterval_def clearTimerRef_def clearActiveCycleRef_def
  playSound_def

subsection \<open>Starting a session\<close>

text \<open>
  C8. For all settings, the start command issued in phase \<open>IDLE\<close> gives round 1, breath count 1,
  \<open>isInhale\<close> true, phase \<open>BREATHING\<close> and an empty stats sequence, plays one inhale cue, and
  schedules \<open>runBreathingStep\<close> as a repeating timer with period \<open>tempoMs / 2\<close>, whose handle
  both refs then hold.
\<close>

theorem start_from_idle:
  assumes "phase s = IDLE"
  shows "round_n (click st Start s) = 1
       \<and> breathCount (click st Start s) = 1
       \<and> isInhale (click st Start s)
       \<and> phase (click st Start s) = BREATHING
       \<and> sessionStats (click st Start s) = []
       \<and> cues (click st Start s) = cues s @ [Inhale]
       \<and> timerRef (click st Start s) = Some (Suc (lastHandle s))
       \<and> activeCycleRef (click st Start s) = Suc (lastHandle s)
       \<and> map_of (timers (click st Start s)) (Suc (lastHandle s)) =
           Some \<lparr>repeats = True, delayMs = real_of_int (tempoMs st) / 2, action = BreathingStep\<rparr>"
  using assms
  by (simp add: click_def startSessionWrapper_def startBreathingCycleSafe_def timer_ops Let_def)

theorem start_from_idle_witness:
  "phase initApp = IDLE
   \<and> round_n (click DEFAULT_SETTINGS Start initApp) = 1
   \<and> breathCount (click DEFAULT_SETTINGS Start initApp) = 1
   \<and> isInhale (click DEFAULT_SETTINGS Start initApp)
   \<and> phase (click DEFAULT_SETTINGS Start initApp) = BREATHING
   \<and> sessionStats (click DEFAULT_SETTINGS Start initApp) = []
   \<and> cues (click DEFAULT_SETTINGS Start initApp) = [Inhale]
   \<and> timerRef (click DEFAULT_SETTINGS Start initApp) = Some 1
   \<and> map_of (timers (click DEFAULT_SETTINGS Start initApp)) 1 =
       Some \<lparr>repeats = True, delayMs = 1750, action = BreathingStep\<rparr>"
proof -
  have idle: "phase initApp = IDLE"
    by (simp add: initApp_def)
  show ?thesis
    using idle start_from_idle [OF idle, of DEFAULT_SETTINGS]
    by (simp add: initApp_def DEFAULT_SETTINGS_def)
qed

subsection \<open>The two breathing-cycle callbacks\<close>

text \<open>
  C10. The interval callback of \<open>startBreathingCycle\<close> and \<open>runBreathingStep\<close> make the same
  transition on every state and for every \<open>breathsPerRound\<close>: the same next \<open>isInhale\<close>, the
  same next \<open>breathCount\<close>, the same cue, and the same phase, so that one enters retention
  exactly when the other does. The two results are equal in every component but the timer
  pool, where \<open>runBreathingStep\<close> also clears the handle kept in \<open>activeCycleRef\<close>.
\<close>

theorem breathing_step_implementations_agree:
  "isInhale (runBreathingStep st now s) = isInhale (cycleCallback st now s)
   \<and> breathCount (runBreathingStep st now s) = breathCount (cycleCallback st now s)
   \<and> cues (runBreathingStep st now s) = cues (cycleCallback st now s)
   \<and> phase (runBreathingStep st now s) = phase (cycleCallback st now s)
   \<and> (runBreathingStep st now s)\<lparr>timers := []\<rparr> = (cycleCallback st now s)\<lparr>timers := []\<rparr>"
  by (simp add: runBreathingStep_def cycleCallback_def startRetention_def timer_ops Let_def
           split: option.splits)

subsection \<open>The end-retention command outside retention\<close>




subsection \<open>Retention\<close>

text \<open>Any number of retention ticks add up to the time of the last tick minus the start.\<close>

lemma retention_ticks:
  "map_of (timers s) h = Some \<lparr>repeats = True, delayMs = d, action = RetentionTick\<rparr> \<Longrightarrow>
   run st (map (Fire h) ts) s =
     s\<lparr>lastTimeRef := last (lastTimeRef s # ts),
       elapsedTime :=
         elapsedTime s + real_of_int (last (lastTimeRef s # ts) - lastTimeRef s) / 1000\<rparr>"
proof (induction ts arbitrary: s)
  case Nil
  then show ?case by simp
next
  case (Cons t ts)
  let ?s1 = "fire st h t s"
  have s1: "?s1 = s\<lparr>lastTimeRef := t,
                    elapsedTime := elapsedTime s + real_of_int (t - lastTimeRef s) / 1000\<rparr>"
    using Cons.prems by (simp add: fire_def retentionTick_def)
  have "map_of (timers ?s1) h = Some \<lparr>repeats = True, delayMs = d, action = RetentionTick\<rparr>"
    using Cons.prems by (simp add: s1)
  from Cons.IH [OF this] show ?case
    by (simp add: s1 field_simps)
qed



subsection \<open>The breathing phase\<close>

lemma breathBound_clearInterval [simp]:
  "breathBound st (clearInterval h s) = breathBound st s"
  by (simp add: breathBound_def clearInterval_def)

lemma breathBound_click:
  "1 \<le> breathsPerRound st \<Longrightarrow> breathBound st s \<Longrightarrow> breathBound st (click st c s)"
  by (cases c; cases "phase s")
     (simp_all add: breathBound_def click_def startSessionWrapper_def startBreathingCycleSafe_def
        endRetention_def stopSession_def timer_ops Let_def split: option.splits)

lemma breathBound_callback:
  "1 \<le> breathsPerRound st \<Longrightarrow> breathBound st s \<Longrightarrow> breathBound st (runCallback st cb now s)"
  by (cases cb)
     (auto simp add: breathBound_def cycleCallback_def runBreathingStep_def startRetention_def
        retentionTick_def recoveryTick_def finishRound_def nextRound_def resumeBreathing_def
        startBreathingCycleSafe_def timer_ops Let_def split: option.splits)

lemma breathBound_fire:
  "1 \<le> breathsPerRound st \<Longrightarrow> breathBound st s \<Longrightarrow> breathBound st (fire st h now s)"
  by (simp add: fire_def breathBound_callback split: option.splits)

lemma breathBound_run:
  "1 \<le> breathsPerRound st \<Longrightarrow> breathBound st s \<Longrightarrow> breathBound st (run st evs s)"
proof (induction evs arbitrary: s)
  case Nil
  then show ?case by simp
next
  case (Cons e evs)
  have "breathBound st (step st e s)"
    using Cons.prems by (cases e) (simp_all add: breathBound_click breathBound_fire)
  with Cons show ?case by simp
qed

text \<open>
  C9. Under settings with \<open>breathsPerRound \<ge> 1\<close>, every state reached from the initial state by
  any sequence of commands and timer firings has \<open>1 \<le> breathCount \<le> breathsPerRound\<close> whenever
  its phase is \<open>BREATHING\<close>. On the tick that turns to inhale with the incremented count above
  \<open>breathsPerRound\<close>, \<open>runBreathingStep\<close> leaves \<open>breathCount\<close> as it is and enters
  \<open>RETENTION\<close>.
\<close>

theorem breathCount_within_bound:
  assumes "1 \<le> breathsPerRound st"
  shows "(phase (run st evs initApp) = BREATHING \<longrightarrow>
            1 \<le> breathCount (run st evs initApp)
          \<and> breathCount (run st evs initApp) \<le> breathsPerRound st)
       \<and> (\<not> isInhale s \<and> breathsPerRound st < breathCount s + 1 \<longrightarrow>
            breathCount (runBreathingStep st now s) = breathCount s
          \<and> phase (runBreathingStep st now s) = RETENTION)"
proof -
  have "breathBound st initApp"
    by (simp add: breathBound_def initApp_def)
  from breathBound_run [OF assms this, of evs] have "breathBound st (run st evs initApp)" .
  moreover have "\<not> isInhale s \<and> breathsPerRound st < breathCount s + 1 \<longrightarrow>
            breathCount (runBreathingStep st now s) = breathCount s
          \<and> phase (runBreathingStep st now s) = RETENTION"
    by (simp add: runBreathingStep_def startRetention_def timer_ops Let_def split: option.splits)
  ultimately show ?thesis
    by (simp add: breathBound_def)
qed

theorem breathCount_within_bound_witness:
  "1 \<le> breathsPerRound fourBreaths
   \<and> phase (run fourBreaths [Click Start, Fire 1 0, Fire 1 0] initApp) = BREATHING
   \<and> 1 \<le> breathCount (run fourBreaths [Click Start, Fire 1 0, Fire 1 0] initApp)
   \<and> breathCount (run fourBreaths [Click Start, Fire 1 0, Fire 1 0] initApp) \<le> 4
   \<and> \<not> isInhale (run fourBreaths (Click Start # replicate 7 (Fire 1 0)) initApp)
   \<and> breathsPerRound fourBreaths
       < breathCount (run fourBreaths (Click Start # replicate 7 (Fire 1 0)) initApp) + 1
   \<and> breathCount
         (runBreathingStep fourBreaths 0
            (run fourBreaths (Click Start # replicate 7 (Fire 1 0)) initApp)) = 4
   \<and> phase
         (runBreathingStep fourBreaths 0
            (run fourBreaths (Click Start # replicate 7 (Fire 1 0)) initApp)) = RETENTION"
proof -
  let ?s = "run fourBreaths (Click Start # replicate 7 (Fire 1 0)) initApp"
  have b: "1 \<le> breathsPerRound fourBreaths"
    by (simp add: fourBreaths_def)
  have p: "phase (run fourBreaths [Click Start, Fire 1 0, Fire 1 0] initApp) = BREATHING"
    by (simp add: fourBreaths_def initApp_def click_def fire_def startSessionWrapper_def
        startBreathingCycleSafe_def runBreathingStep_def timer_ops Let_def)
  have q: "\<not> isInhale ?s" "breathCount ?s = 4"
    by (simp_all add: eval_nat_numeral fourBreaths_def initApp_def click_def fire_def
        startSessionWrapper_def startBreathingCycleSafe_def runBreathingStep_def timer_ops
        Let_def)
  show ?thesis
    using b p q
      breathCount_within_bound [OF b, of "[Click Start, Fire 1 0, Fire 1 0]" ?s 0]
    by (simp add: fourBreaths_def)
qed

text \<open>The breathing timer, tick by tick.\<close>

lemma fire_exhale:
  assumes "map_of (timers s) h = Some bt" "action bt = BreathingStep" "repeats bt" "isInhale s"
  shows "fire st h t s = s\<lparr>cues := cues s @ [Exhale], isInhale := False\<rparr>"
  using assms by (simp add: fire_def runBreathingStep_def playSound_def)

lemma fire_inhale:
  assumes "map_of (timers s) h = Some bt" "action bt = BreathingStep" "repeats bt" "\<not> isInhale s"
    "breathCount s + 1 \<le> breathsPerRound st"
  shows "fire st h t s = s\<lparr>cues := cues s @ [Inhale], breathCount := breathCount s + 1, isInhale := True\<rparr>"
  using assms by (simp add: fire_def runBreathingStep_def playSound_def)

lemma fire_to_retention:
  assumes "map_of (timers s) h = Some bt" "action bt = BreathingStep" "repeats bt" "\<not> isInhale s"
    "breathsPerRound st < breathCount s + 1"
  shows "fire st h t s = (startRetention t (clearActiveCycleRef s))\<lparr>isInhale := True\<rparr>"
  using assms by (simp add: fire_def runBreathingStep_def)

lemma breathing_pairs:
  assumes "map_of (timers s) h = Some bt" "action bt = BreathingStep" "repeats bt" "isInhale s"
    "breathCount s + int k \<le> breathsPerRound st"
  shows "run st (replicate (2 * k) (Fire h t)) s =
           s\<lparr>cues := cues s @ concat (replicate k [Exhale, Inhale]),
             breathCount := breathCount s + int k\<rparr>"
  using assms
proof (induction k arbitrary: s)
  case 0
  then show ?case by simp
next
  case (Suc k)
  let ?s1 = "s\<lparr>cues := cues s @ [Exhale], isInhale := False\<rparr>"
  let ?s2 = "s\<lparr>cues := cues s @ [Exhale, Inhale], breathCount := breathCount s + 1\<rparr>"
  have f1: "fire st h t s = ?s1"
    using Suc.prems by (simp add: fire_exhale)
  have "fire st h t ?s1 = ?s1\<lparr>cues := cues ?s1 @ [Inhale], breathCount := breathCount ?s1 + 1, isInhale := True\<rparr>"
    using Suc.prems by (intro fire_inhale [where bt = bt]) simp_all
  also have "\<dots> = ?s2"
    using Suc.prems(4) by (intro App.equality) simp_all
  finally have f2: "fire st h t ?s1 = ?s2" .
  have "run st (replicate (2 * k) (Fire h t)) ?s2 =
          ?s2\<lparr>cues := cues ?s2 @ concat (replicate k [Exhale, Inhale]),
               breathCount := breathCount ?s2 + int k\<rparr>"
    using Suc.prems by (intro Suc.IH) simp_all
  then show ?case
    by (simp add: f1 f2 add.commute add.left_commute)
qed

lemma breathing_round:
  assumes "map_of (timers s) h = Some bt" "action bt = BreathingStep" "repeats bt" "isInhale s"
    "breathCount s = 1" "breathsPerRound st = int (Suc n)"
  shows "run st (replicate (2 * Suc n) (Fire h t)) s =
           (startRetention t (clearActiveCycleRef
              (s\<lparr>cues := cues s @ concat (replicate n [Exhale, Inhale]) @ [Exhale],
                 breathCount := int (Suc n), isInhale := False\<rparr>)))\<lparr>isInhale := True\<rparr>"
proof -
  let ?s1 = "s\<lparr>cues := cues s @ concat (replicate n [Exhale, Inhale]),
               breathCount := breathCount s + int n\<rparr>"
  let ?s2 = "?s1\<lparr>cues := cues ?s1 @ [Exhale], isInhale := False\<rparr>"
  have split: "replicate (2 * Suc n) (Fire h t) = replicate (2 * n) (Fire h t) @ [Fire h t, Fire h t]"
    using replicate_add [of "2 * n" 2 "Fire h t"] by (simp add: numeral_2_eq_2)
  have r1: "run st (replicate (2 * n) (Fire h t)) s = ?s1"
    using assms by (intro breathing_pairs [where bt = bt]) simp_all
  have r2: "fire st h t ?s1 = ?s2"
    using assms by (intro fire_exhale [where bt = bt]) simp_all
  have r3: "fire st h t ?s2 = (startRetention t (clearActiveCycleRef ?s2))\<lparr>isInhale := True\<rparr>"
    using assms by (intro fire_to_retention [where bt = bt]) simp_all
  have e: "?s2 = s\<lparr>cues := cues s @ concat (replicate n [Exhale, Inhale]) @ [Exhale],
                 breathCount := int (Suc n), isInhale := False\<rparr>"
    using assms(5) by simp
  have "run st (replicate (2 * Suc n) (Fire h t)) s = fire st h t (fire st h t ?s1)"
    by (simp only: split run_append r1 run.simps step.simps)
  also have "\<dots> = (startRetention t (clearActiveCycleRef ?s2))\<lparr>isInhale := True\<rparr>"
    by (simp only: r2 r3)
  finally show ?thesis
    by (simp only: e)
qed

lemma breathing_prefix:
  assumes "map_of (timers s) h = Some bt" "action bt = BreathingStep" "repeats bt" "isInhale s"
    "breathCount s = 1" "k < 2 * nat (breathsPerRound st)"
  shows "phase (run st (replicate k (Fire h t)) s) = phase s"
proof -
  define j where "j = k div 2"
  have j: "k = 2 * j \<or> k = Suc (2 * j)"
    unfolding j_def by presburger
  have "2 * j < 2 * nat (breathsPerRound st)"
    using assms(6) j by linarith
  then have le: "breathCount s + int j \<le> breathsPerRound st"
    using assms(5) by linarith
  let ?s1 = "s\<lparr>cues := cues s @ concat (replicate j [Exhale, Inhale]),
               breathCount := breathCount s + int j\<rparr>"
  have r1: "run st (replicate (2 * j) (Fire h t)) s = ?s1"
    using assms le by (intro breathing_pairs [where bt = bt]) simp_all
  have r2: "fire st h t ?s1 = ?s1\<lparr>cues := cues ?s1 @ [Exhale], isInhale := False\<rparr>"
    using assms by (intro fire_exhale [where bt = bt]) simp_all
  from j show ?thesis
  proof
    assume "k = 2 * j"
    then show ?thesis by (simp add: r1)
  next
    assume "k = Suc (2 * j)"
    then have "replicate k (Fire h t) = replicate (2 * j) (Fire h t) @ [Fire h t]"
      by (simp add: replicate_append_same)
    then show ?thesis
      by (simp add: run_append r1 r2)
  qed
qed

lemma breath_cues: "Inhale # concat (replicate n [Exhale, Inhale]) @ [Exhale] = concat (replicate (Suc n) [Inhale, Exhale])"
  by (induction n) simp_all

lemma count_breath_cues:
  "count_list (concat (replicate n [Inhale, Exhale])) Inhale = n"
  "count_list (concat (replicate n [Inhale, Exhale])) Exhale = n"
  "count_list (concat (replicate n [Inhale, Exhale])) Bell = 0"
  by (induction n) simp_all

lemma start_state:
  "phase s = IDLE \<Longrightarrow>
   click st Start s =
     s\<lparr>phase := BREATHING, round_n := 1, breathCount := 1, isInhale := True, sessionStats := [],
       cues := cues s @ [Inhale],
       timers := (Suc (lastHandle s),
                  \<lparr>repeats = True, delayMs = real_of_int (tempoMs st) / 2, action = BreathingStep\<rparr>)
                 # timers (clearActiveCycleRef s),
       lastHandle := Suc (lastHandle s), activeCycleRef := Suc (lastHandle s),
       timerRef := Some (Suc (lastHandle s))\<rparr>"
  by (simp add: click_def startSessionWrapper_def startBreathingCycleSafe_def timer_ops Let_def)

text \<open>
  C2, as stated, fails: with four breaths per round the eight ticks from start to retention
  play four exhale cues, not three. The cue that the bell replaces is the fifth inhale.
\<close>

theorem four_breaths_four_exhales:
  "cues (run fourBreaths
           [Click Start, Fire 1 0, Fire 1 0, Fire 1 0, Fire 1 0, Fire 1 0, Fire 1 0, Fire 1 0,
            Fire 1 0] initApp) =
     [Inhale, Exhale, Inhale, Exhale, Inhale, Exhale, Inhale, Exhale, Bell]
   \<and> phase (run fourBreaths
           [Click Start, Fire 1 0, Fire 1 0, Fire 1 0, Fire 1 0, Fire 1 0, Fire 1 0, Fire 1 0]
           initApp) = BREATHING
   \<and> phase (run fourBreaths
           [Click Start, Fire 1 0, Fire 1 0, Fire 1 0, Fire 1 0, Fire 1 0, Fire 1 0, Fire 1 0,
            Fire 1 0] initApp) = RETENTION
   \<and> count_list (cues (run fourBreaths
           [Click Start, Fire 1 0, Fire 1 0, Fire 1 0, Fire 1 0, Fire 1 0, Fire 1 0, Fire 1 0,
            Fire 1 0] initApp)) Exhale \<noteq> 4 - 1"
  by (simp add: fourBreaths_def initApp_def click_def fire_def startSessionWrapper_def
        startBreathingCycleSafe_def runBreathingStep_def startRetention_def timer_ops Let_def)

text \<open>
  C2, amended. Let \<open>N = breathsPerRound \<ge> 1\<close>. After the start command the phase is
  \<open>BREATHING\<close> through the first \<open>2N - 1\<close> ticks of the breathing timer, and tick \<open>2N\<close> enters
  \<open>RETENTION\<close>. The cues played from the start command to that tick are \<open>N\<close> times an inhale
  followed by an exhale, then the bell: exactly \<open>N\<close> inhale cues and \<open>N\<close> exhale cues, and
  the tick that would begin inhale \<open>N + 1\<close> plays the bell.
\<close>

theorem breathing_cues:
  assumes "phase s = IDLE" "1 \<le> breathsPerRound st"
  shows "(k < 2 * nat (breathsPerRound st) \<longrightarrow>
            phase (run st (replicate k (Fire (Suc (lastHandle s)) t)) (click st Start s)) = BREATHING)
       \<and> phase (run st (replicate (2 * nat (breathsPerRound st)) (Fire (Suc (lastHandle s)) t))
                 (click st Start s)) = RETENTION
       \<and> cues (run st (replicate (2 * nat (breathsPerRound st)) (Fire (Suc (lastHandle s)) t))
                (click st Start s)) =
           cues s @ concat (replicate (nat (breathsPerRound st)) [Inhale, Exhale]) @ [Bell]
       \<and> count_list
           (drop (length (cues s))
              (cues (run st (replicate (2 * nat (breathsPerRound st)) (Fire (Suc (lastHandle s)) t))
                       (click st Start s)))) Inhale = nat (breathsPerRound st)
       \<and> count_list
           (drop (length (cues s))
              (cues (run st (replicate (2 * nat (breathsPerRound st)) (Fire (Suc (lastHandle s)) t))
                       (click st Start s)))) Exhale = nat (breathsPerRound st)"
proof -
  let ?h = "Suc (lastHandle s)"
  let ?b = "click st Start s"
  let ?bt = "\<lparr>repeats = True, delayMs = real_of_int (tempoMs st) / 2, action = BreathingStep\<rparr>"
  define n where "n = nat (breathsPerRound st) - 1"
  have n: "breathsPerRound st = int (Suc n)"
    using assms(2) by (simp add: n_def)
  have look: "map_of (timers ?b) ?h = Some ?bt" and inh: "isInhale ?b" and bc: "breathCount ?b = 1"
    and ph: "phase ?b = BREATHING" and cs: "cues ?b = cues s @ [Inhale]"
    using assms(1) by (simp_all add: start_state)
  have pre: "k < 2 * nat (breathsPerRound st) \<longrightarrow>
      phase (run st (replicate k (Fire ?h t)) ?b) = BREATHING"
    using breathing_prefix [OF look _ _ inh bc, of k st t] ph by simp
  have fin: "run st (replicate (2 * Suc n) (Fire ?h t)) ?b =
           (startRetention t (clearActiveCycleRef
              (?b\<lparr>cues := cues ?b @ concat (replicate n [Exhale, Inhale]) @ [Exhale],
                 breathCount := int (Suc n), isInhale := False\<rparr>)))\<lparr>isInhale := True\<rparr>"
    using inh bc n by (intro breathing_round [OF look]) simp_all
  have nn: "nat (breathsPerRound st) = Suc n"
    using n by simp
  have ph2: "phase (run st (replicate (2 * Suc n) (Fire ?h t)) ?b) = RETENTION"
    unfolding fin by (simp add: startRetention_def timer_ops Let_def split: option.splits)
  have "cues (run st (replicate (2 * Suc n) (Fire ?h t)) ?b) =
          cues s @ (Inhale # concat (replicate n [Exhale, Inhale]) @ [Exhale]) @ [Bell]"
    unfolding fin by (simp add: cs startRetention_def timer_ops Let_def split: option.splits)
  then have cs2: "cues (run st (replicate (2 * Suc n) (Fire ?h t)) ?b) =
          cues s @ concat (replicate (Suc n) [Inhale, Exhale]) @ [Bell]"
    by (simp only: breath_cues)
  have cnt: "count_list (drop (length (cues s))
                 (cues (run st (replicate (2 * Suc n) (Fire ?h t)) ?b))) Inhale = Suc n"
      "count_list (drop (length (cues s))
                 (cues (run st (replicate (2 * Suc n) (Fire ?h t)) ?b))) Exhale = Suc n"
    unfolding cs2 by (simp_all only: drop_append diff_self_eq_0 drop_0 drop_all order_refl
        append_Nil count_list_append count_breath_cues) simp_all
  show ?thesis
    using pre ph2 cs2 cnt by (simp only: nn simp_thms)
qed

theorem breathing_cues_witness:
  "phase initApp = IDLE
   \<and> 1 \<le> breathsPerRound fourBreaths
   \<and> (7::nat) < 2 * nat (breathsPerRound fourBreaths)
   \<and> phase (run fourBreaths (replicate 7 (Fire 1 0)) (click fourBreaths Start initApp)) = BREATHING
   \<and> phase (run fourBreaths (replicate 8 (Fire 1 0)) (click fourBreaths Start initApp)) = RETENTION
   \<and> cues (run fourBreaths (replicate 8 (Fire 1 0)) (click fourBreaths Start initApp)) =
       [Inhale, Exhale, Inhale, Exhale, Inhale, Exhale, Inhale, Exhale, Bell]
   \<and> count_list
       (cues (run fourBreaths (replicate 8 (Fire 1 0)) (click fourBreaths Start initApp))) Exhale = 4"
proof -
  have i: "phase initApp = IDLE"
    by (simp add: initApp_def)
  have b: "1 \<le> breathsPerRound fourBreaths"
    by (simp add: fourBreaths_def)
  have n: "nat (breathsPerRound fourBreaths) = 4" "lastHandle initApp = 0" "cues initApp = []"
    by (simp_all add: fourBreaths_def initApp_def)
  have r: "replicate 4 [Inhale, Exhale] = [[Inhale, Exhale], [Inhale, Exhale], [Inhale, Exhale], [Inhale, Exhale]]"
    by (simp add: numeral_eq_Suc)
  show ?thesis
    using i b breathing_cues [OF i b, of 7 0]
    by (simp add: n r)
qed

subsection \<open>Recovery\<close>

lemma recovery_ticks:
  assumes "map_of (timers s) h = Some rt" "action rt = RecoveryTick" "repeats rt"
    "real k / 10 < elapsedTime s"
  shows "run st (replicate k (Fire h t)) s = s\<lparr>elapsedTime := elapsedTime s - real k / 10\<rparr>"
  using assms
proof (induction k arbitrary: s)
  case 0
  then show ?case by simp
next
  case (Suc k)
  let ?s1 = "s\<lparr>elapsedTime := elapsedTime s - 1 / 10\<rparr>"
  have big: "\<not> elapsedTime s \<le> 1 / 10"
    using Suc.prems(4) by (simp add: field_simps) 
  have f1: "fire st h t s = ?s1"
    using Suc.prems(1-3) big by (simp add: fire_def recoveryTick_def)
  have "run st (replicate k (Fire h t)) ?s1 = ?s1\<lparr>elapsedTime := elapsedTime ?s1 - real k / 10\<rparr>"
    using Suc.prems by (intro Suc.IH) (simp_all add: field_simps)
  then show ?case
    by (simp add: f1 field_simps)
qed

lemma recovery_last_tick:
  assumes "map_of (timers s) h = Some rt" "action rt = RecoveryTick" "repeats rt"
    "elapsedTime s \<le> 1 / 10"
  shows "fire st h t s = (finishRound st s)\<lparr>elapsedTime := 0\<rparr>"
  using assms by (simp add: fire_def recoveryTick_def)







subsection \<open>Whole rounds and whole sessions\<close>

lemma start_atBreathing:
  "click st Start initApp =
     initApp\<lparr>phase := BREATHING, breathCount := 1, isInhale := True, cues := [Inhale],
       timers := [(1, breathingTimer st)], lastHandle := 1, activeCycleRef := 1,
       timerRef := Some 1\<rparr>"
  by (simp add: click_def initApp_def startSessionWrapper_def startBreathingCycleSafe_def
        breathingTimer_def timer_ops Let_def)

lemma to_retention:
  assumes "atBreathing st h s" "breathsPerRound st = int (Suc n)"
  shows "run st (replicate (2 * nat (breathsPerRound st)) (Fire h t0)) s =
           s\<lparr>phase := RETENTION, breathCount := int (Suc n), elapsedTime := 0,
             timerRef := Some (Suc h), lastTimeRef := t0,
             timers := [(Suc h, \<lparr>repeats = True, delayMs = 100, action = RetentionTick\<rparr>)],
             lastHandle := Suc h,
             cues := cues s @ concat (replicate n [Exhale, Inhale]) @ [Exhale, Bell]\<rparr>"
proof -
  have look: "map_of (timers s) h = Some (breathingTimer st)"
    using assms(1) by (simp add: atBreathing_def)
  have "run st (replicate (2 * Suc n) (Fire h t0)) s =
           (startRetention t0 (clearActiveCycleRef
              (s\<lparr>cues := cues s @ concat (replicate n [Exhale, Inhale]) @ [Exhale],
                 breathCount := int (Suc n), isInhale := False\<rparr>)))\<lparr>isInhale := True\<rparr>"
    using assms by (intro breathing_round [OF look]) (simp_all add: atBreathing_def breathingTimer_def)
  also have "\<dots> = s\<lparr>phase := RETENTION, breathCount := int (Suc n), elapsedTime := 0,
             timerRef := Some (Suc h), lastTimeRef := t0,
             timers := [(Suc h, \<lparr>repeats = True, delayMs = 100, action = RetentionTick\<rparr>)],
             lastHandle := Suc h,
             cues := cues s @ concat (replicate n [Exhale, Inhale]) @ [Exhale, Bell]\<rparr>"
    using assms(1)
    by (intro App.equality) (simp_all add: atBreathing_def startRetention_def timer_ops Let_def)
  finally have r: "run st (replicate (2 * Suc n) (Fire h t0)) s =
           s\<lparr>phase := RETENTION, breathCount := int (Suc n), elapsedTime := 0,
             timerRef := Some (Suc h), lastTimeRef := t0,
             timers := [(Suc h, \<lparr>repeats = True, delayMs = 100, action = RetentionTick\<rparr>)],
             lastHandle := Suc h,
             cues := cues s @ concat (replicate n [Exhale, Inhale]) @ [Exhale, Bell]\<rparr>" .
  have nn: "nat (breathsPerRound st) = Suc n"
    using assms(2) by simp
  show ?thesis
    by (simp only: nn r)
qed

lemma to_recovery:
  assumes "phase s = RETENTION" "timers s = [(h, \<lparr>repeats = True, delayMs = 100, action = RetentionTick\<rparr>)]"
    "timerRef s = Some h" "lastHandle s = h" "h \<noteq> 0"
  shows "run st (map (Fire h) ts @ [Click EndRetentionNow]) s =
           s\<lparr>phase := RECOVERY, elapsedTime := 15,
             sessionStats := sessionStats s @
               [\<lparr>round_s = round_n s,
                 retentionTime = elapsedTime s + real_of_int (last (lastTimeRef s # ts) - lastTimeRef s) / 1000\<rparr>],
             timerRef := Some (Suc h), lastTimeRef := last (lastTimeRef s # ts),
             timers := [(Suc h, \<lparr>repeats = True, delayMs = 100, action = RecoveryTick\<rparr>)],
             lastHandle := Suc h, cues := cues s @ [Inhale]\<rparr>"
proof -
  have look: "map_of (timers s) h = Some \<lparr>repeats = True, delayMs = 100, action = RetentionTick\<rparr>"
    using assms by simp
  show ?thesis
    using assms
    by (simp add: run_append retention_ticks [OF look] click_def endRetention_def timer_ops Let_def)
qed

lemma recovery_to_end:
  assumes "timers s = [(h, \<lparr>repeats = True, delayMs = 100, action = RecoveryTick\<rparr>)]"
    "timerRef s = Some h" "lastHandle s = h" "h \<noteq> 0" "elapsedTime s = 15"
  shows "run st (replicate 150 (Fire h t)) s =
           (if totalRounds st \<le> round_n s
            then s\<lparr>phase := COMPLETED, elapsedTime := 0, timers := [], cues := cues s @ [Bell]\<rparr>
            else s\<lparr>elapsedTime := 0,
                   timers := [(Suc h, \<lparr>repeats = False, delayMs = 1000, action = NextRound\<rparr>)],
                   lastHandle := Suc h\<rparr>)"
proof -
  have look: "map_of (timers s) h = Some \<lparr>repeats = True, delayMs = 100, action = RecoveryTick\<rparr>"
    using assms by simp
  have s149: "run st (replicate 149 (Fire h t)) s = s\<lparr>elapsedTime := 1 / 10\<rparr>"
    using recovery_ticks [OF look, of 149 st t] assms(5) by simp
  have "replicate 150 (Fire h t) = replicate 149 (Fire h t) @ [Fire h t]"
    using replicate_add [of 149 1 "Fire h t"] by simp
  then have "run st (replicate 150 (Fire h t)) s =
      (finishRound st (s\<lparr>elapsedTime := 1 / 10\<rparr>))\<lparr>elapsedTime := 0\<rparr>"
    using recovery_last_tick [of "s\<lparr>elapsedTime := 1 / 10\<rparr>" h _ st t] look
    by (simp add: run_append s149)
  then show ?thesis
    using assms by (simp add: finishRound_def timer_ops Let_def)
qed


lemma full_round:
  assumes "atBreathing st h s" "breathsPerRound st = int (Suc n)"
  shows "run st (roundEvents st h t0 ts) s =
           (if totalRounds st \<le> round_n s
            then s\<lparr>phase := COMPLETED, breathCount := int (Suc n), elapsedTime := 0,
                   sessionStats := sessionStats s @
                     [\<lparr>round_s = round_n s,
                       retentionTime = real_of_int (last (t0 # ts) - t0) / 1000\<rparr>],
                   timerRef := Some (Suc (Suc h)), lastTimeRef := last (t0 # ts),
                   timers := [], lastHandle := Suc (Suc h),
                   cues := cues s @ concat (replicate n [Exhale, Inhale])
                           @ [Exhale, Bell, Inhale, Bell]\<rparr>
            else s\<lparr>phase := RECOVERY, breathCount := int (Suc n), elapsedTime := 0,
                   sessionStats := sessionStats s @
                     [\<lparr>round_s = round_n s,
                       retentionTime = real_of_int (last (t0 # ts) - t0) / 1000\<rparr>],
                   timerRef := Some (Suc (Suc h)), lastTimeRef := last (t0 # ts),
                   timers := [(Suc (Suc (Suc h)), nextRoundTimer)],
                   lastHandle := Suc (Suc (Suc h)),
                   cues := cues s @ concat (replicate n [Exhale, Inhale])
                           @ [Exhale, Bell, Inhale]\<rparr>)"
proof -
  let ?s1 = "s\<lparr>phase := RETENTION, breathCount := int (Suc n), elapsedTime := 0,
             timerRef := Some (Suc h), lastTimeRef := t0,
             timers := [(Suc h, \<lparr>repeats = True, delayMs = 100, action = RetentionTick\<rparr>)],
             lastHandle := Suc h,
             cues := cues s @ concat (replicate n [Exhale, Inhale]) @ [Exhale, Bell]\<rparr>"
  let ?s2 = "?s1\<lparr>phase := RECOVERY, elapsedTime := 15,
             sessionStats := sessionStats ?s1 @
               [\<lparr>round_s = round_n ?s1,
                 retentionTime = elapsedTime ?s1
                   + real_of_int (last (lastTimeRef ?s1 # ts) - lastTimeRef ?s1) / 1000\<rparr>],
             timerRef := Some (Suc (Suc h)), lastTimeRef := last (lastTimeRef ?s1 # ts),
             timers := [(Suc (Suc h), \<lparr>repeats = True, delayMs = 100, action = RecoveryTick\<rparr>)],
             lastHandle := Suc (Suc h), cues := cues ?s1 @ [Inhale]\<rparr>"
  have r1: "run st (replicate (2 * nat (breathsPerRound st)) (Fire h t0)) s = ?s1"
    by (rule to_retention [OF assms])
  have r2: "run st (map (Fire (Suc h)) ts @ [Click EndRetentionNow]) ?s1 = ?s2"
    by (rule to_recovery) simp_all
  have r3: "run st (replicate 150 (Fire (Suc (Suc h)) 0)) ?s2 =
           (if totalRounds st \<le> round_n ?s2
            then ?s2\<lparr>phase := COMPLETED, elapsedTime := 0, timers := [],
                     cues := cues ?s2 @ [Bell]\<rparr>
            else ?s2\<lparr>elapsedTime := 0,
                   timers := [(Suc (Suc (Suc h)),
                               \<lparr>repeats = False, delayMs = 1000, action = NextRound\<rparr>)],
                   lastHandle := Suc (Suc (Suc h))\<rparr>)"
    by (rule recovery_to_end) simp_all
  have "run st (roundEvents st h t0 ts) s =
          run st (replicate 150 (Fire (Suc (Suc h)) 0))
            (run st (map (Fire (Suc h)) ts @ [Click EndRetentionNow])
               (run st (replicate (2 * nat (breathsPerRound st)) (Fire h t0)) s))"
    by (simp only: roundEvents_def run_append append_assoc [symmetric])
  also have "\<dots> = run st (replicate 150 (Fire (Suc (Suc h)) 0)) ?s2"
    by (simp only: r1 r2)
  finally show ?thesis
    unfolding r3 by (simp add: nextRoundTimer_def)
qed





subsection \<open>Stopping\<close>

lemma first_round_pause:
  assumes "breathsPerRound st = int (Suc n)" "1 < totalRounds st"
  shows "run st (Click Start # roundEvents st 1 t0 ts) initApp =
           initApp\<lparr>phase := RECOVERY, breathCount := int (Suc n), elapsedTime := 0,
             isInhale := True,
             sessionStats :=
               [\<lparr>round_s = 1, retentionTime = real_of_int (last (t0 # ts) - t0) / 1000\<rparr>],
             timerRef := Some 3, lastTimeRef := last (t0 # ts), activeCycleRef := 1,
             timers := [(4, nextRoundTimer)], lastHandle := 4,
             cues := Inhale # concat (replicate n [Exhale, Inhale]) @ [Exhale, Bell, Inhale]\<rparr>"
proof -
  let ?b = "click st Start initApp"
  have ab: "atBreathing st 1 ?b"
    by (simp add: start_atBreathing atBreathing_def)
  have rb: "round_n ?b = 1" "sessionStats ?b = []"
    unfolding start_atBreathing by (simp_all add: initApp_def)
  have more: "\<not> totalRounds st \<le> round_n ?b"
    using assms(2) by (simp add: rb)
  have "run st (Click Start # roundEvents st 1 t0 ts) initApp = run st (roundEvents st 1 t0 ts) ?b"
    by simp
  also note full_round [OF ab assms(1), of t0 ts]
  finally show ?thesis
    using more rb by (simp add: start_atBreathing eval_nat_numeral)
qed

text \<open>
  C1 at the pause between rounds, under the default settings: the first round is driven to the
  end of its recovery, which leaves phase \<open>RECOVERY\<close> and the one-shot of \<open>finishRound\<close>
  pending. The stop command then gives phase \<open>IDLE\<close> but leaves the one-shot scheduled
  (\<open>stopSession\<close> clears the two interval handles only), and when it fires the session is back in
  \<open>BREATHING\<close>, in round 2, with a breathing timer running.
\<close>

theorem stop_during_pause_resumes:
  "phase (run DEFAULT_SETTINGS (Click Start # roundEvents DEFAULT_SETTINGS 1 0 []) initApp) = RECOVERY
   \<and> phase (run DEFAULT_SETTINGS
         (Click Start # roundEvents DEFAULT_SETTINGS 1 0 [] @ [Click Stop]) initApp) = IDLE
   \<and> pendingTimeouts (run DEFAULT_SETTINGS
         (Click Start # roundEvents DEFAULT_SETTINGS 1 0 [] @ [Click Stop]) initApp) =
       [(4, nextRoundTimer)]
   \<and> phase (run DEFAULT_SETTINGS
         (Click Start # roundEvents DEFAULT_SETTINGS 1 0 [] @ [Click Stop, Fire 4 0]) initApp) =
       BREATHING
   \<and> round_n (run DEFAULT_SETTINGS
         (Click Start # roundEvents DEFAULT_SETTINGS 1 0 [] @ [Click Stop, Fire 4 0]) initApp) = 2
   \<and> activeIntervals (run DEFAULT_SETTINGS
         (Click Start # roundEvents DEFAULT_SETTINGS 1 0 [] @ [Click Stop, Fire 4 0]) initApp) =
       [(5, breathingTimer DEFAULT_SETTINGS)]"
proof -
  have n: "breathsPerRound DEFAULT_SETTINGS = int (Suc 29)" and r: "1 < totalRounds DEFAULT_SETTINGS"
    by (simp_all add: DEFAULT_SETTINGS_def)
  note p = first_round_pause [OF n r, of 0 "[]"]
  have app: "run DEFAULT_SETTINGS (Click Start # roundEvents DEFAULT_SETTINGS 1 0 [] @ es) initApp =
      run DEFAULT_SETTINGS es (run DEFAULT_SETTINGS (Click Start # roundEvents DEFAULT_SETTINGS 1 0 []) initApp)"
    for es
    using run_append [of DEFAULT_SETTINGS "Click Start # roundEvents DEFAULT_SETTINGS 1 0 []" es initApp]
    by simp
  show ?thesis
    unfolding app p
    by (simp add: click_def stopSession_def fire_def nextRound_def resumeBreathing_def
          startBreathingCycleSafe_def timer_ops Let_def pendingTimeouts_def activeIntervals_def
          nextRoundTimer_def breathingTimer_def initApp_def)
qed

subsection \<open>The timer pool\<close>


lemma timerInv_sole:
  "timerInv s \<Longrightarrow> phase s \<noteq> IDLE \<Longrightarrow> phase s \<noteq> COMPLETED \<Longrightarrow>
   \<exists>h t. timers s = [(h, t)] \<and> phaseTimer (phase s) t \<and> (repeats t \<longrightarrow> timerRef s = Some h \<and> h \<noteq> 0)"
  by (cases "timers s"; cases "tl (timers s)"; cases "hd (timers s)") (auto simp add: timerInv_def)







subsection \<open>Stopping while no one-shot is pending\<close>

text \<open>
  In a state that satisfies the invariant of the timer pool and has no one-shot pending,
  \<open>stopSession\<close> leaves phase \<open>IDLE\<close> with both counters reset and nothing scheduled, and from a
  state with nothing scheduled no timer firing changes anything.
\<close>

lemma stopSession_outside_pause:
  assumes "timerInv s" "pendingTimeouts s = []"
  shows "phase (stopSession s) = IDLE \<and> breathCount (stopSession s) = 0
       \<and> elapsedTime (stopSession s) = 0 \<and> timers (stopSession s) = []"
proof (cases "phase s = IDLE \<or> phase s = COMPLETED")
  case True
  with assms(1) show ?thesis
    by (auto simp add: timerInv_def stopSession_def timer_ops split: option.splits)
next
  case False
  with assms(1) obtain h t where ht: "timers s = [(h, t)]"
      "repeats t \<longrightarrow> timerRef s = Some h \<and> h \<noteq> 0"
    using timerInv_sole by blast
  with assms(2) have "repeats t"
    by (cases "repeats t") (simp_all add: pendingTimeouts_def)
  with ht show ?thesis
    by (simp add: stopSession_def timer_ops)
qed

lemma nothing_scheduled_nothing_fires:
  "timers s = [] \<Longrightarrow> run st (map (\<lambda>p. Fire (fst p) (snd p)) fs) s = s"
  by (induction fs) (simp_all add: fire_def)

end
